theory Spec2Isabelle
  imports Complex_Main "HOL-Library.Sublist"
begin

section \<open>Python strings\<close>

text \<open>
  A Python \<open>str\<close> is a sequence of code points and \<open>len\<close> counts code points. The model
  is \<^typ>\<open>string\<close>, read as a sequence of code points below 256 (one \<^typ>\<open>char\<close> per code
  point, Latin-1), so \<^const>\<open>length\<close> is \<open>len\<close>.
\<close>

text \<open>\<open>str.isspace\<close> on one code point below 256: TAB..CR, FS..US, space, NEL, NBSP.\<close>

definition isspace :: "char \<Rightarrow> bool" where
  "isspace c =
     (let n = (of_char c :: nat)
      in (9 \<le> n \<and> n \<le> 13) \<or> (28 \<le> n \<and> n \<le> 32) \<or> n = 133 \<or> n = 160)"

text \<open>\<open>s.strip()\<close>: whitespace removed at both ends.\<close>

definition strip :: "string \<Rightarrow> string" where
  "strip s = rev (dropWhile isspace (rev (dropWhile isspace s)))"

text \<open>
  \<open>s.lower()\<close>, code point by code point: \<open>A..Z\<close> and the Latin-1 capitals
  (\<open>0xC0..0xDE\<close> without the multiplication sign \<open>0xD7\<close>) move up by 32.
\<close>

definition lower_char :: "char \<Rightarrow> char" where
  "lower_char c =
     (let n = (of_char c :: nat)
      in if (65 \<le> n \<and> n \<le> 90) \<or> (192 \<le> n \<and> n \<le> 222 \<and> n \<noteq> 215)
         then char_of (n + 32) else c)"

definition lower :: "string \<Rightarrow> string" where
  "lower s = map lower_char s"

text \<open>\<open>sub in s\<close> on strings: \<open>sub\<close> occurs in \<open>s\<close> as a contiguous run.\<close>

fun starts_with :: "string \<Rightarrow> string \<Rightarrow> bool" where
  "starts_with [] s = True"
| "starts_with (c # sub) [] = False"
| "starts_with (c # sub) (d # s) = (c = d \<and> starts_with sub s)"

fun str_in :: "string \<Rightarrow> string \<Rightarrow> bool" where
  "str_in sub [] = (sub = [])"
| "str_in sub (d # s) = (starts_with sub (d # s) \<or> str_in sub s)"

section \<open>The feedback processing function\<close>

text \<open>
  \<open>process_feedback_with_ai(feedback_text, category, company_context="")\<close> returns the pair
  \<open>(improved, solution)\<close>. A Python string is true when it is not empty.
\<close>

definition process_feedback_with_ai :: "string \<Rightarrow> string \<Rightarrow> string \<Rightarrow> string \<times> string" where
  "process_feedback_with_ai feedback_text category company_context =
     (let improved =
            (if length feedback_text < 20
             then ''Customer feedback indicates: '' @ feedback_text
                    @ ''. Additional context would be helpful.''
             else feedback_text);
          lower_feedback = lower feedback_text;
          solution =
            (if str_in ''slow'' lower_feedback \<or> str_in ''wait'' lower_feedback
             then ''Recommendation: Increase staff during peak hours. Consider implementing a queue management system. ''
                    @ company_context
             else if str_in ''dirty'' lower_feedback \<or> str_in ''clean'' lower_feedback
             then ''Recommendation: Implement more frequent cleaning schedules and conduct regular hygiene inspections.''
             else if str_in ''rude'' lower_feedback \<or> str_in ''unfriendly'' lower_feedback
                       \<or> str_in ''staff'' lower_feedback
             then ''Recommendation: Provide customer service training for staff and establish clear communication guidelines.''
             else if str_in ''price'' lower_feedback \<or> str_in ''expensive'' lower_feedback
                       \<or> str_in ''cheap'' lower_feedback
             then ''Recommendation: Review pricing strategy and consider offering value packages or loyalty programs.''
             else if str_in ''food'' lower_feedback \<or> str_in ''meal'' lower_feedback
                       \<or> str_in ''taste'' lower_feedback
             then ''Recommendation: Gather specific feedback about menu items and consider taste testing with focus groups.''
             else if str_in ''long'' lower_feedback \<or> str_in ''boring'' lower_feedback
             then ''Recommendation: Break sessions into shorter segments with interactive elements and regular breaks.''
             else if str_in ''good'' lower_feedback \<or> str_in ''great'' lower_feedback
                       \<or> str_in ''excellent'' lower_feedback
             then ''Positive feedback received! Continue maintaining these high standards and consider what's working well.''
             else ''Recommendation: Follow up with customer for more specific details. ''
                    @ (if company_context \<noteq> [] then company_context
                       else ''Consider implementing regular feedback sessions.''))
      in (improved, solution))"

text \<open>
  The two components of the pipeline are the two results of this one function: the
  Text Normalizer is its first result, the Classifier its second. Neither reads the
  category argument, so the empty string stands for it.
\<close>

definition normalizer :: "string \<Rightarrow> string" where
  "normalizer feedback_text = fst (process_feedback_with_ai feedback_text [] [])"

definition classifier :: "string \<Rightarrow> string \<Rightarrow> string" where
  "classifier feedback_text company_context =
     snd (process_feedback_with_ai feedback_text [] company_context)"

section \<open>Records, session state and the feedback file\<close>

text \<open>The dictionary \<open>company_info\<close> built by the setup page.\<close>

record company_info =
  name :: string
  type :: string
  description :: string
  focus_areas :: "string list"
  categories :: "string list"
  enable_rating :: bool
  created_at :: string

text \<open>The dictionary \<open>feedback_entry\<close>; the key \<open>id\<close> is the field \<open>id'\<close>.\<close>

record feedback =
  id' :: int
  company :: string
  category :: string
  rating :: int
  original :: string
  improved :: string
  solution :: string
  timestamp :: string

datatype error =
  ValidationError | OSError | JSONDecodeError | ZeroDivisionError | OverflowError

text \<open>
  The \<open>json\<close> module is a library outside the repository. It is a parameter of the model:
  \<open>dump\<close> writes a collection as a document of some type \<open>'d\<close>, \<open>load\<close> reads a document
  back and fails on a document that is no collection of feedback records.
\<close>

record 'd json =
  dump :: "feedback list \<Rightarrow> 'd"
  load :: "'d \<Rightarrow> feedback list option"

text \<open>The library's contract: what was dumped loads back as the same collection.\<close>

definition json_roundtrip :: "'d json \<Rightarrow> bool" where
  "json_roundtrip j = (\<forall>fs. load j (dump j fs) = Some fs)"

text \<open>The simplest library that keeps the contract: a document is the collection itself.\<close>

definition value_json :: "(feedback list) json" where
  "value_json = \<lparr>dump = (\<lambda>fs. fs), load = Some\<rparr>"

text \<open>
  \<open>st.session_state\<close> (the cached list and the active profile) together with the content of
  \<open>feedbacks.json\<close>; \<open>None\<close> is "the file does not exist".
\<close>

record 'd state =
  feedbacks :: "feedback list"
  active_company_info :: "company_info option"
  feedback_file :: "'d option"

text \<open>
  What the surroundings decide in one run of the script: the formatted local time, and
  whether writing the file works. A failed write leaves the file as the medium has it.
\<close>

datatype 'd write_outcome = Write_ok | Write_fails "'d option"

record 'd env =
  now :: string
  write_outcome :: "'d write_outcome"

text \<open>The widgets of the feedback form as the browser sends them.\<close>

record form_input =
  selectbox_category :: string
  slider_rating :: int
  feedback_text :: string
  submitted :: bool

definition load_feedbacks :: "'d json \<Rightarrow> 'd option \<Rightarrow> error + feedback list" where
  "load_feedbacks j file =
     (case file of
        None \<Rightarrow> Inr []
      | Some doc \<Rightarrow> (case load j doc of None \<Rightarrow> Inl JSONDecodeError | Some fs \<Rightarrow> Inr fs))"

definition save_feedbacks ::
  "'d json \<Rightarrow> 'd write_outcome \<Rightarrow> feedback list \<Rightarrow> 'd option \<Rightarrow> (error + unit) \<times> 'd option" where
  "save_feedbacks j w fs file =
     (case w of
        Write_ok \<Rightarrow> (Inr (), Some (dump j fs))
      | Write_fails file' \<Rightarrow> (Inl OSError, file'))"

text \<open>"Load feedbacks on startup": every run of the script reloads an empty cached list.\<close>

definition startup :: "'d json \<Rightarrow> 'd state \<Rightarrow> error + 'd state" where
  "startup j s =
     (if feedbacks s = []
      then (case load_feedbacks j (feedback_file s) of
              Inl e \<Rightarrow> Inl e
            | Inr fs \<Rightarrow> Inr (s\<lparr>feedbacks := fs\<rparr>))
      else Inr s)"

section \<open>The feedback form\<close>

definition company_context_of :: "company_info option \<Rightarrow> string" where
  "company_context_of ci =
     (case ci of None \<Rightarrow> [] | Some c \<Rightarrow> ''Company context: '' @ description c)"

text \<open>
  \<open>show_feedback_form\<close>. The result is \<open>Inr None\<close> when the form is only drawn,
  \<open>Inr (Some entry)\<close> when the thanks are shown, \<open>Inl ValidationError\<close> for the message
  "Please enter your feedback before submitting." and \<open>Inl OSError\<close> when
  \<open>save_feedbacks\<close> raises. The entry is inserted in the cached list before the file is
  written, and an exception does not take it out again.
\<close>

definition show_feedback_form ::
  "'d json \<Rightarrow> 'd env \<Rightarrow> form_input \<Rightarrow> 'd state \<Rightarrow> (error + feedback option) \<times> 'd state" where
  "show_feedback_form j e inp s =
     (let company_name =
            (case active_company_info s of None \<Rightarrow> ''Our Company'' | Some c \<Rightarrow> name c);
          rating_enabled =
            (case active_company_info s of None \<Rightarrow> True | Some c \<Rightarrow> enable_rating c);
          chosen = selectbox_category inp;
          stars = (if rating_enabled then slider_rating inp else 0)
      in if submitted inp
         then if strip (feedback_text inp) \<noteq> []
              then let company_context = company_context_of (active_company_info s);
                       (better, advice) =
                          process_feedback_with_ai (feedback_text inp) chosen company_context;
                       feedback_entry =
                         \<lparr>id' = int (length (feedbacks s)) + 1,
                          company = company_name,
                          category = chosen,
                          rating = stars,
                          original = feedback_text inp,
                          improved = better,
                          solution = advice,
                          timestamp = now e\<rparr>;
                       s1 = s\<lparr>feedbacks := feedback_entry # feedbacks s\<rparr>;
                       (saved, file') =
                          save_feedbacks j (write_outcome e) (feedbacks s1) (feedback_file s1);
                       s2 = s1\<lparr>feedback_file := file'\<rparr>
                   in (case saved of
                         Inl err \<Rightarrow> (Inl err, s2)
                       | Inr u \<Rightarrow> (Inr (Some feedback_entry), s2))
              else (Inl ValidationError, s)
         else (Inr None, s))"

text \<open>One run of the script with the feedback page selected: startup, then the form.\<close>

definition run_feedback_page ::
  "'d json \<Rightarrow> 'd env \<Rightarrow> form_input \<Rightarrow> 'd state \<Rightarrow> (error + feedback option) \<times> 'd state" where
  "run_feedback_page j e inp s =
     (case startup j s of
        Inl err \<Rightarrow> (Inl err, s)
      | Inr s0 \<Rightarrow> show_feedback_form j e inp s0)"

section \<open>The dashboard statistics\<close>





section \<open>The specification's wording of the Classifier and of save after load\<close>

text \<open>
  The specification describes the Classifier as an ordered table of keyword groups, the
  first group with a keyword in the lower-cased text winning. This is that table, to be
  compared with the chain of conditionals in \<^const>\<open>process_feedback_with_ai\<close>.
\<close>

definition keyword_groups :: "string \<Rightarrow> (string list \<times> string) list" where
  "keyword_groups company_context =
     [([''slow'', ''wait''],
       ''Recommendation: Increase staff during peak hours. Consider implementing a queue management system. ''
         @ company_context),
      ([''dirty'', ''clean''],
       ''Recommendation: Implement more frequent cleaning schedules and conduct regular hygiene inspections.''),
      ([''rude'', ''unfriendly'', ''staff''],
       ''Recommendation: Provide customer service training for staff and establish clear communication guidelines.''),
      ([''price'', ''expensive'', ''cheap''],
       ''Recommendation: Review pricing strategy and consider offering value packages or loyalty programs.''),
      ([''food'', ''meal'', ''taste''],
       ''Recommendation: Gather specific feedback about menu items and consider taste testing with focus groups.''),
      ([''long'', ''boring''],
       ''Recommendation: Break sessions into shorter segments with interactive elements and regular breaks.''),
      ([''good'', ''great'', ''excellent''],
       ''Positive feedback received! Continue maintaining these high standards and consider what's working well.'')]"

definition generic_follow_up :: "string \<Rightarrow> string" where
  "generic_follow_up company_context =
     ''Recommendation: Follow up with customer for more specific details. ''
       @ (if company_context \<noteq> [] then company_context
          else ''Consider implementing regular feedback sessions.'')"

definition group_matches :: "string \<Rightarrow> string list \<times> string \<Rightarrow> bool" where
  "group_matches lowered g = list_ex (\<lambda>k. str_in k lowered) (fst g)"

fun first_match :: "(string list \<times> string) list \<Rightarrow> string \<Rightarrow> string \<Rightarrow> string" where
  "first_match [] fallback lowered = fallback"
| "first_match (g # gs) fallback lowered =
     (if group_matches lowered g then snd g else first_match gs fallback lowered)"

text \<open>\<open>save(load())\<close>: the loaded collection written straight back.\<close>

definition save_load :: "'d json \<Rightarrow> 'd write_outcome \<Rightarrow> 'd option \<Rightarrow> (error + unit) \<times> 'd option" where
  "save_load j w file =
     (case load_feedbacks j file of
        Inl err \<Rightarrow> (Inl err, file)
      | Inr fs \<Rightarrow> save_feedbacks j w fs file)"

section \<open>Concrete sessions\<close>

text \<open>A fresh session: nothing cached, no profile, no file.\<close>

definition fresh :: "(feedback list) state" where
  "fresh = \<lparr>feedbacks = [], active_company_info = None, feedback_file = None\<rparr>"

definition writable :: "string \<Rightarrow> (feedback list) env" where
  "writable t = \<lparr>now = t, write_outcome = Write_ok\<rparr>"

definition unwritable :: "string \<Rightarrow> (feedback list) env" where
  "unwritable t = \<lparr>now = t, write_outcome = Write_fails None\<rparr>"

text \<open>The form filled in with a text and a slider position, category "General", submitted.\<close>

definition filled :: "string \<Rightarrow> int \<Rightarrow> form_input" where
  "filled t r =
     \<lparr>selectbox_category = ''General'', slider_rating = r, feedback_text = t, submitted = True\<rparr>"

text \<open>A profile with the star rating switched off.\<close>

definition unrated_cafe :: company_info where
  "unrated_cafe =
     \<lparr>name = ''Sunset Restaurant'', type = ''Restaurant'',
      description = ''Family restaurant by the sea'',
      focus_areas = [''Customer Service'', ''Product Quality''],
      categories = [''General'', ''Service'', ''Quality'', ''Environment''],
      enable_rating = False, created_at = ''2024-05-01 09:00:00''\<rparr>"

definition entry :: "int \<Rightarrow> feedback" where
  "entry r =
     \<lparr>id' = 1, company = ''Our Company'', category = ''General'', rating = r,
      original = ''ok'', improved = ''ok'', solution = ''ok'',
      timestamp = ''2024-05-01 12:00:00''\<rparr>"

text \<open>Three submissions in a row, starting from the fresh session.\<close>

definition session1 :: "(feedback list) state" where
  "session1 =
     snd (run_feedback_page value_json (writable ''2024-05-01 12:00:00'')
            (filled ''Too slow'' 2) fresh)"

definition session2 :: "(feedback list) state" where
  "session2 =
     snd (run_feedback_page value_json (writable ''2024-05-01 12:05:00'')
            (filled ''Dirty floor, rude staff'' 1) session1)"

definition session3 :: "(feedback list) state" where
  "session3 =
     snd (run_feedback_page value_json (writable ''2024-05-01 12:10:00'')
            (filled ''Great service, loved it!'' 5) session2)"

text \<open>The same first submission with the file not writable.\<close>

definition unsaved :: "(feedback list) state" where
  "unsaved =
     snd (show_feedback_form value_json (unwritable ''2024-05-01 12:00:00'')
            (filled ''Too slow'' 2) fresh)"

section \<open>Strings: occurrence of a keyword\<close>

lemma starts_with_prefix: "starts_with sub s = prefix sub s"
  by (induction sub s rule: starts_with.induct) simp_all

lemma str_in_sublist: "str_in sub s = sublist sub s"
  by (induction s) (simp_all add: starts_with_prefix sublist_Cons_right)

lemma sublist_separator:
  assumes "c \<notin> set k"
  shows "sublist k (a @ c # b) \<longleftrightarrow> sublist k a \<or> sublist k b"
proof
  assume "sublist k (a @ c # b)"
  then consider "sublist k a" | "sublist k (c # b)"
    | k1 k2 where "k = k1 @ k2" "suffix k1 a" "prefix k2 (c # b)"
    by (auto simp: sublist_append)
  then show "sublist k a \<or> sublist k b"
  proof cases
    case 1
    then show ?thesis by simp
  next
    case 2
    then have "prefix k (c # b) \<or> sublist k b" by (simp add: sublist_Cons_right)
    moreover have "k = []" if "prefix k (c # b)"
      using that assms by (cases k) auto
    ultimately show ?thesis by auto
  next
    case 3
    have "k2 = []" using 3(1,3) assms by (cases k2) auto
    then show ?thesis using 3(1,2) by auto
  qed
next
  assume "sublist k a \<or> sublist k b"
  then show "sublist k (a @ c # b)"
    by (auto simp: sublist_append sublist_Cons_right)
qed

lemma lower_append: "lower (a @ b) = lower a @ lower b"
  by (simp add: lower_def)

lemma lower_prefix_text:
  "lower ''Customer feedback indicates: '' = ''customer feedback indicates:'' @ CHR '' '' # []"
  by code_simp

lemma lower_suffix_text:
  "lower ''. Additional context would be helpful.'' = CHR ''.'' # '' additional context would be helpful.''"
  by code_simp

lemma str_in_wrapped:
  assumes "CHR '' '' \<notin> set k" and "CHR ''.'' \<notin> set k"
    and "\<not> str_in k ''customer feedback indicates:''"
    and "\<not> str_in k '' additional context would be helpful.''"
  shows "str_in k (lower (''Customer feedback indicates: '' @ t @ ''. Additional context would be helpful.''))
         = str_in k (lower t)"
proof -
  have "lower (''Customer feedback indicates: '' @ t @ ''. Additional context would be helpful.'')
        = lower ''Customer feedback indicates: '' @ lower t
            @ lower ''. Additional context would be helpful.''"
    by (simp only: lower_append)
  also have "\<dots> = (''customer feedback indicates:'' @ CHR '' '' # [])
            @ lower t @ CHR ''.'' # '' additional context would be helpful.''"
    by (simp only: lower_prefix_text lower_suffix_text)
  also have "\<dots> = ''customer feedback indicates:''
            @ CHR '' '' # (lower t @ CHR ''.'' # '' additional context would be helpful.'')"
    by (simp only: append_assoc append_Cons append_Nil)
  finally have eq: "lower (''Customer feedback indicates: '' @ t @ ''. Additional context would be helpful.'')
        = ''customer feedback indicates:''
            @ CHR '' '' # (lower t @ CHR ''.'' # '' additional context would be helpful.'')" .
  from assms(3,4) have n1: "\<not> sublist k ''customer feedback indicates:''"
    and n2: "\<not> sublist k '' additional context would be helpful.''"
    by (simp_all add: str_in_sublist)
  have "str_in k (lower (''Customer feedback indicates: '' @ t @ ''. Additional context would be helpful.''))
        = sublist k (''customer feedback indicates:''
            @ CHR '' '' # (lower t @ CHR ''.'' # '' additional context would be helpful.''))"
    by (simp only: eq str_in_sublist)
  also have "\<dots> = (sublist k ''customer feedback indicates:'' \<or> sublist k (lower t)
                    \<or> sublist k '' additional context would be helpful.'')"
    by (simp only: sublist_separator [OF assms(1)] sublist_separator [OF assms(2)])
  also have "\<dots> = sublist k (lower t)"
    using n1 n2 by blast
  also have "\<dots> = str_in k (lower t)"
    by (simp only: str_in_sublist)
  finally show ?thesis .
qed

text \<open>
  No keyword of the Classifier holds a space or a full stop, and none occurs in the
  wrapping sentence, so the sentence adds no keyword and hides none.
\<close>

lemma keyword_in_wrapped:
  "str_in ''slow'' (lower (''Customer feedback indicates: '' @ t @ ''. Additional context would be helpful.''))
     = str_in ''slow'' (lower t)"
  "str_in ''wait'' (lower (''Customer feedback indicates: '' @ t @ ''. Additional context would be helpful.''))
     = str_in ''wait'' (lower t)"
  "str_in ''dirty'' (lower (''Customer feedback indicates: '' @ t @ ''. Additional context would be helpful.''))
     = str_in ''dirty'' (lower t)"
  "str_in ''clean'' (lower (''Customer feedback indicates: '' @ t @ ''. Additional context would be helpful.''))
     = str_in ''clean'' (lower t)"
  "str_in ''rude'' (lower (''Customer feedback indicates: '' @ t @ ''. Additional context would be helpful.''))
     = str_in ''rude'' (lower t)"
  "str_in ''unfriendly'' (lower (''Customer feedback indicates: '' @ t @ ''. Additional context would be helpful.''))
     = str_in ''unfriendly'' (lower t)"
  "str_in ''staff'' (lower (''Customer feedback indicates: '' @ t @ ''. Additional context would be helpful.''))
     = str_in ''staff'' (lower t)"
  "str_in ''price'' (lower (''Customer feedback indicates: '' @ t @ ''. Additional context would be helpful.''))
     = str_in ''price'' (lower t)"
  "str_in ''expensive'' (lower (''Customer feedback indicates: '' @ t @ ''. Additional context would be helpful.''))
     = str_in ''expensive'' (lower t)"
  "str_in ''cheap'' (lower (''Customer feedback indicates: '' @ t @ ''. Additional context would be helpful.''))
     = str_in ''cheap'' (lower t)"
  "str_in ''food'' (lower (''Customer feedback indicates: '' @ t @ ''. Additional context would be helpful.''))
     = str_in ''food'' (lower t)"
  "str_in ''meal'' (lower (''Customer feedback indicates: '' @ t @ ''. Additional context would be helpful.''))
     = str_in ''meal'' (lower t)"
  "str_in ''taste'' (lower (''Customer feedback indicates: '' @ t @ ''. Additional context would be helpful.''))
     = str_in ''taste'' (lower t)"
  "str_in ''long'' (lower (''Customer feedback indicates: '' @ t @ ''. Additional context would be helpful.''))
     = str_in ''long'' (lower t)"
  "str_in ''boring'' (lower (''Customer feedback indicates: '' @ t @ ''. Additional context would be helpful.''))
     = str_in ''boring'' (lower t)"
  "str_in ''good'' (lower (''Customer feedback indicates: '' @ t @ ''. Additional context would be helpful.''))
     = str_in ''good'' (lower t)"
  "str_in ''great'' (lower (''Customer feedback indicates: '' @ t @ ''. Additional context would be helpful.''))
     = str_in ''great'' (lower t)"
  "str_in ''excellent'' (lower (''Customer feedback indicates: '' @ t @ ''. Additional context would be helpful.''))
     = str_in ''excellent'' (lower t)"
  by (rule str_in_wrapped; simp)+

section \<open>The two results of the processing function\<close>

lemma classifier_eq:
  "classifier t ctx =
     (if str_in ''slow'' (lower t) \<or> str_in ''wait'' (lower t)
      then ''Recommendation: Increase staff during peak hours. Consider implementing a queue management system. '' @ ctx
      else if str_in ''dirty'' (lower t) \<or> str_in ''clean'' (lower t)
      then ''Recommendation: Implement more frequent cleaning schedules and conduct regular hygiene inspections.''
      else if str_in ''rude'' (lower t) \<or> str_in ''unfriendly'' (lower t) \<or> str_in ''staff'' (lower t)
      then ''Recommendation: Provide customer service training for staff and establish clear communication guidelines.''
      else if str_in ''price'' (lower t) \<or> str_in ''expensive'' (lower t) \<or> str_in ''cheap'' (lower t)
      then ''Recommendation: Review pricing strategy and consider offering value packages or loyalty programs.''
      else if str_in ''food'' (lower t) \<or> str_in ''meal'' (lower t) \<or> str_in ''taste'' (lower t)
      then ''Recommendation: Gather specific feedback about menu items and consider taste testing with focus groups.''
      else if str_in ''long'' (lower t) \<or> str_in ''boring'' (lower t)
      then ''Recommendation: Break sessions into shorter segments with interactive elements and regular breaks.''
      else if str_in ''good'' (lower t) \<or> str_in ''great'' (lower t) \<or> str_in ''excellent'' (lower t)
      then ''Positive feedback received! Continue maintaining these high standards and consider what's working well.''
      else ''Recommendation: Follow up with customer for more specific details. ''
             @ (if ctx \<noteq> [] then ctx else ''Consider implementing regular feedback sessions.''))"
  by (simp only: classifier_def process_feedback_with_ai_def Let_def snd_conv)

lemma classifier_wrapped:
  "classifier (''Customer feedback indicates: '' @ t @ ''. Additional context would be helpful.'') ctx
   = classifier t ctx"
  by (simp only: classifier_eq keyword_in_wrapped)

lemma category_unused:
  "process_feedback_with_ai t c ctx = process_feedback_with_ai t c' ctx"
  by (simp only: process_feedback_with_ai_def)

lemma improved_eq:
  "fst (process_feedback_with_ai t c ctx) =
     (if length t < 20
      then ''Customer feedback indicates: '' @ t @ ''. Additional context would be helpful.''
      else t)"
  by (simp only: process_feedback_with_ai_def Let_def fst_conv)

lemma normalizer_eq:
  "normalizer t =
     (if length t < 20
      then ''Customer feedback indicates: '' @ t @ ''. Additional context would be helpful.''
      else t)"
  by (simp only: normalizer_def improved_eq)

lemma improved_normalizer: "fst (process_feedback_with_ai t c ctx) = normalizer t"
  by (simp only: normalizer_eq improved_eq)

lemma solution_classifier: "snd (process_feedback_with_ai t c ctx) = classifier t ctx"
  by (simp only: classifier_def category_unused [of t c ctx "[]"])

lemma classifier_normalizer: "classifier (normalizer t) ctx = classifier t ctx"
  by (cases "length t < 20") (simp_all only: normalizer_eq classifier_wrapped if_True if_False)

lemma process_feedback_with_ai_pair:
  "process_feedback_with_ai t c ctx = (normalizer t, classifier t ctx)"
  by (simp only: prod_eq_iff fst_conv snd_conv improved_normalizer solution_classifier)

lemma first_match_table:
  "first_match (keyword_groups ctx) (generic_follow_up ctx) l =
     (if str_in ''slow'' l \<or> str_in ''wait'' l
      then ''Recommendation: Increase staff during peak hours. Consider implementing a queue management system. '' @ ctx
      else if str_in ''dirty'' l \<or> str_in ''clean'' l
      then ''Recommendation: Implement more frequent cleaning schedules and conduct regular hygiene inspections.''
      else if str_in ''rude'' l \<or> str_in ''unfriendly'' l \<or> str_in ''staff'' l
      then ''Recommendation: Provide customer service training for staff and establish clear communication guidelines.''
      else if str_in ''price'' l \<or> str_in ''expensive'' l \<or> str_in ''cheap'' l
      then ''Recommendation: Review pricing strategy and consider offering value packages or loyalty programs.''
      else if str_in ''food'' l \<or> str_in ''meal'' l \<or> str_in ''taste'' l
      then ''Recommendation: Gather specific feedback about menu items and consider taste testing with focus groups.''
      else if str_in ''long'' l \<or> str_in ''boring'' l
      then ''Recommendation: Break sessions into shorter segments with interactive elements and regular breaks.''
      else if str_in ''good'' l \<or> str_in ''great'' l \<or> str_in ''excellent'' l
      then ''Positive feedback received! Continue maintaining these high standards and consider what's working well.''
      else ''Recommendation: Follow up with customer for more specific details. ''
             @ (if ctx \<noteq> [] then ctx else ''Consider implementing regular feedback sessions.''))"
  by (simp only: keyword_groups_def generic_follow_up_def first_match.simps group_matches_def
      list_ex_Nil_iff list_ex_Cons_iff fst_conv snd_conv simp_thms)

lemma classifier_first_match:
  "classifier t ctx = first_match (keyword_groups ctx) (generic_follow_up ctx) (lower t)"
  by (simp only: classifier_eq first_match_table)

lemma first_match_earliest:
  "i < length gs \<Longrightarrow> group_matches l (gs ! i) \<Longrightarrow> (\<forall>j<i. \<not> group_matches l (gs ! j))
   \<Longrightarrow> first_match gs d l = snd (gs ! i)"
proof (induction gs arbitrary: i)
  case Nil
  then show ?case by simp
next
  case (Cons g gs)
  show ?case
  proof (cases i)
    case 0
    with Cons.prems show ?thesis by simp
  next
    case (Suc n)
    with Cons.prems have "\<not> group_matches l g" by auto
    moreover have "first_match gs d l = snd (gs ! n)"
    proof (rule Cons.IH)
      show "n < length gs" using Cons.prems(1) Suc by simp
      show "group_matches l (gs ! n)" using Cons.prems(2) Suc by simp
      show "\<forall>j<n. \<not> group_matches l (gs ! j)"
      proof (intro allI impI)
        fix j assume "j < n"
        then have "Suc j < i" using Suc by simp
        with Cons.prems(3) have "\<not> group_matches l ((g # gs) ! Suc j)" by blast
        then show "\<not> group_matches l (gs ! j)" by simp
      qed
    qed
    ultimately show ?thesis using Suc by simp
  qed
qed

section \<open>What one submission does\<close>

lemma show_feedback_form_accepts:
  assumes "submitted inp" and "strip (feedback_text inp) \<noteq> []"
  shows "\<exists>r. feedbacks (snd (show_feedback_form j e inp s)) = r # feedbacks s
     \<and> id' r = int (length (feedbacks s)) + 1
     \<and> company r = (case active_company_info s of None \<Rightarrow> ''Our Company'' | Some c \<Rightarrow> name c)
     \<and> category r = selectbox_category inp
     \<and> rating r = (if (case active_company_info s of None \<Rightarrow> True | Some c \<Rightarrow> enable_rating c)
                   then slider_rating inp else 0)
     \<and> original r = feedback_text inp
     \<and> improved r = normalizer (feedback_text inp)
     \<and> solution r = classifier (feedback_text inp) (company_context_of (active_company_info s))
     \<and> timestamp r = now e
     \<and> active_company_info (snd (show_feedback_form j e inp s)) = active_company_info s
     \<and> (case write_outcome e of
          Write_ok \<Rightarrow> fst (show_feedback_form j e inp s) = Inr (Some r)
                      \<and> feedback_file (snd (show_feedback_form j e inp s)) = Some (dump j (r # feedbacks s))
        | Write_fails f \<Rightarrow> fst (show_feedback_form j e inp s) = Inl OSError
                      \<and> feedback_file (snd (show_feedback_form j e inp s)) = f)"
  using assms
  by (simp add: show_feedback_form_def Let_def save_feedbacks_def process_feedback_with_ai_pair
      split: write_outcome.splits)

section \<open>The Text Normalizer\<close>

text \<open>
  Claim C1, as the code has it. The normalizer compares the length of the text as
  submitted, leading and trailing whitespace included, with 20: it returns the text
  unchanged exactly when that length is at least 20, and otherwise returns the wrapping
  sentence with the text verbatim inside. For a text without whitespace at its ends this
  is the trimmed length.
\<close>

theorem normalizer_threshold_raw_length:
  "normalizer t =
     (if length t < 20
      then ''Customer feedback indicates: '' @ t @ ''. Additional context would be helpful.''
      else t)
   \<and> (normalizer t = t \<longleftrightarrow> 20 \<le> length t)
   \<and> (strip t = t \<longrightarrow> (normalizer t = t \<longleftrightarrow> 20 \<le> length (strip t)))"
proof -
  have "''Customer feedback indicates: '' @ t @ ''. Additional context would be helpful.'' \<noteq> t"
  proof
    assume "''Customer feedback indicates: '' @ t @ ''. Additional context would be helpful.'' = t"
    then have "length (''Customer feedback indicates: '' @ t @ ''. Additional context would be helpful.'')
               = length t"
      by (rule arg_cong)
    then show False by simp
  qed
  then have "normalizer t = t \<longleftrightarrow> 20 \<le> length t"
    by (simp add: normalizer_eq)
  then show ?thesis
    by (simp add: normalizer_eq)
qed

theorem normalizer_threshold_raw_length_witness:
  "strip ''Too slow'' = ''Too slow''
   \<and> normalizer ''Too slow''
       = ''Customer feedback indicates: Too slow. Additional context would be helpful.''
   \<and> strip ''Great service, loved it!'' = ''Great service, loved it!''
   \<and> normalizer ''Great service, loved it!'' = ''Great service, loved it!''
   \<and> 20 \<le> length (strip ''Great service, loved it!'')"
proof -
  have a: "strip ''Too slow'' = ''Too slow''"
    and b: "strip ''Great service, loved it!'' = ''Great service, loved it!''"
    by (simp_all add: strip_def isspace_def)
  from normalizer_threshold_raw_length [of "''Too slow''"]
  have c: "normalizer ''Too slow''
       = ''Customer feedback indicates: Too slow. Additional context would be helpful.''"
    by simp
  from normalizer_threshold_raw_length [of "''Great service, loved it!''"] b
  have d: "normalizer ''Great service, loved it!'' = ''Great service, loved it!''"
    by simp
  show ?thesis using a b c d by simp
qed

text \<open>
  The claim as it is written compares the trimmed length. A text of two letters followed
  by eighteen spaces is not empty after trimming and has trimmed length 2, and the
  normalizer returns it unchanged.
\<close>

theorem normalizer_trimmed_length_counterexample:
  "strip ''ok                  '' \<noteq> []
   \<and> length (strip ''ok                  '') < 20
   \<and> normalizer ''ok                  '' = ''ok                  ''"
  by (simp add: normalizer_eq strip_def isspace_def)

section \<open>Rejected submissions\<close>

text \<open>
  Claim C4. A submitted form whose text is empty after trimming gets the validation
  error; the cached list, the profile and the file are as before, so no record exists.
\<close>

theorem blank_submission_rejected:
  assumes "submitted inp" and "strip (feedback_text inp) = []"
  shows "show_feedback_form j e inp s = (Inl ValidationError, s)"
  using assms by (simp add: show_feedback_form_def)

theorem blank_submission_rejected_witness:
  "submitted (filled [] 3) \<and> strip (feedback_text (filled [] 3)) = []
   \<and> show_feedback_form value_json (writable ''2024-05-01 12:00:00'') (filled [] 3) fresh
       = (Inl ValidationError, fresh)
   \<and> submitted (filled ''   '' 3) \<and> strip (feedback_text (filled ''   '' 3)) = []
   \<and> show_feedback_form value_json (writable ''2024-05-01 12:00:00'') (filled ''   '' 3) fresh
       = (Inl ValidationError, fresh)"
proof -
  have a: "submitted (filled [] 3)" and b: "strip (feedback_text (filled [] 3)) = []"
    and c: "submitted (filled ''   '' 3)" and d: "strip (feedback_text (filled ''   '' 3)) = []"
    by (simp_all add: filled_def strip_def isspace_def)
  show ?thesis
    using a b c d
      blank_submission_rejected [OF a b, of value_json "writable ''2024-05-01 12:00:00''" fresh]
      blank_submission_rejected [OF c d, of value_json "writable ''2024-05-01 12:00:00''" fresh]
    by simp
qed

section \<open>The Classifier\<close>

text \<open>
  Claim C5. The chain of conditionals is the ordered table with the first matching group
  winning: a text whose lower-case form holds both "slow" and "clean" gets the staffing
  recommendation of the first group, and whenever a group matches and no earlier group
  does, the result is that group's recommendation.
\<close>

theorem classifier_first_match_wins:
  "classifier t ctx = first_match (keyword_groups ctx) (generic_follow_up ctx) (lower t)
   \<and> (str_in ''slow'' (lower t) \<and> str_in ''clean'' (lower t) \<longrightarrow>
        classifier t ctx =
          ''Recommendation: Increase staff during peak hours. Consider implementing a queue management system. '' @ ctx)
   \<and> (\<forall>i < length (keyword_groups ctx).
         group_matches (lower t) (keyword_groups ctx ! i)
         \<and> (\<forall>j<i. \<not> group_matches (lower t) (keyword_groups ctx ! j))
         \<longrightarrow> classifier t ctx = snd (keyword_groups ctx ! i))"
proof (intro conjI allI impI)
  show "classifier t ctx = first_match (keyword_groups ctx) (generic_follow_up ctx) (lower t)"
    by (rule classifier_first_match)
next
  assume "str_in ''slow'' (lower t) \<and> str_in ''clean'' (lower t)"
  then have "str_in ''slow'' (lower t)" ..
  then show "classifier t ctx =
          ''Recommendation: Increase staff during peak hours. Consider implementing a queue management system. '' @ ctx"
    by (simp only: classifier_eq simp_thms if_True)
next
  fix i
  assume "i < length (keyword_groups ctx)"
    and "group_matches (lower t) (keyword_groups ctx ! i)
         \<and> (\<forall>j<i. \<not> group_matches (lower t) (keyword_groups ctx ! j))"
  then have "first_match (keyword_groups ctx) (generic_follow_up ctx) (lower t)
             = snd (keyword_groups ctx ! i)"
    by (intro first_match_earliest) simp_all
  then show "classifier t ctx = snd (keyword_groups ctx ! i)"
    by (simp only: classifier_first_match)
qed

theorem classifier_first_match_wins_witness:
  "str_in ''slow'' (lower ''Slow service but clean tables'')
   \<and> str_in ''clean'' (lower ''Slow service but clean tables'')
   \<and> classifier ''Slow service but clean tables'' ''Company context: Cafe'' =
       ''Recommendation: Increase staff during peak hours. Consider implementing a queue management system. Company context: Cafe''
   \<and> (1::nat) < length (keyword_groups ''ctx'')
   \<and> group_matches (lower ''Dirty floor, rude staff'') (keyword_groups ''ctx'' ! 1)
   \<and> \<not> group_matches (lower ''Dirty floor, rude staff'') (keyword_groups ''ctx'' ! 0)
   \<and> classifier ''Dirty floor, rude staff'' ''ctx'' = snd (keyword_groups ''ctx'' ! 1)"
proof -
  have l1: "lower ''Slow service but clean tables'' = ''slow service but clean tables''"
    by code_simp
  have l2: "lower ''Dirty floor, rude staff'' = ''dirty floor, rude staff''"
    by code_simp
  have a: "str_in ''slow'' (lower ''Slow service but clean tables'')
     \<and> str_in ''clean'' (lower ''Slow service but clean tables'')"
    by (simp add: l1)
  have b: "(1::nat) < length (keyword_groups ''ctx'')"
    by (simp add: keyword_groups_def)
  have c: "group_matches (lower ''Dirty floor, rude staff'') (keyword_groups ''ctx'' ! 1)"
    by (simp add: l2 keyword_groups_def group_matches_def)
  have d0: "\<not> group_matches (lower ''Dirty floor, rude staff'') (keyword_groups ''ctx'' ! 0)"
    by (simp add: l2 keyword_groups_def group_matches_def)
  then have d: "\<forall>j<1. \<not> group_matches (lower ''Dirty floor, rude staff'') (keyword_groups ''ctx'' ! j)"
    by simp
  from classifier_first_match_wins [of "''Slow service but clean tables''" "''Company context: Cafe''"] a
  have e: "classifier ''Slow service but clean tables'' ''Company context: Cafe'' =
       ''Recommendation: Increase staff during peak hours. Consider implementing a queue management system. '' @ ''Company context: Cafe''"
    by blast
  from classifier_first_match_wins [of "''Dirty floor, rude staff''" "''ctx''"] b c d
  have f: "classifier ''Dirty floor, rude staff'' ''ctx'' = snd (keyword_groups ''ctx'' ! 1)"
    by blast
  show ?thesis using a b c d0 e f by simp
qed

text \<open>
  Claim C10. Two calls that differ in the category only return the same pair: the category
  reaches neither the improved text nor the recommendation.
\<close>

theorem category_noninterference:
  "process_feedback_with_ai t c1 ctx = process_feedback_with_ai t c2 ctx"
  by (rule category_unused)

theorem category_noninterference_witness:
  "''Service'' \<noteq> ''Quality''
   \<and> process_feedback_with_ai ''Too slow'' ''Service'' ''ctx''
       = process_feedback_with_ai ''Too slow'' ''Quality'' ''ctx''"
  using category_noninterference [of "''Too slow''" "''Service''" "''ctx''" "''Quality''"]
  by simp

section \<open>The average rating of the dashboard\<close>








section \<open>The submission pipeline\<close>

lemma startup_cached: "feedbacks s \<noteq> [] \<Longrightarrow> startup j s = Inr s"
  by (simp add: startup_def)

lemma startup_in_step:
  "load_feedbacks j (feedback_file s) = Inr (feedbacks s) \<Longrightarrow> startup j s = Inr s"
  by (simp add: startup_def)

lemma load_after_dump:
  "json_roundtrip j \<Longrightarrow> load_feedbacks j (Some (dump j fs)) = Inr fs"
  by (simp add: load_feedbacks_def json_roundtrip_def)

lemma json_roundtrip_value_json: "json_roundtrip value_json"
  by (simp add: json_roundtrip_def value_json_def)

text \<open>
  A run of the page on a session whose cached list is what the file holds, with a
  non-blank text and a write that works: the new entry is shown, it is first in the
  cached list, its id is the old size plus one, and the file holds the new list.
\<close>

lemma run_feedback_page_saved:
  assumes "json_roundtrip j"
    and "load_feedbacks j (feedback_file s) = Inr (feedbacks s)"
    and "submitted inp" and "strip (feedback_text inp) \<noteq> []"
    and "write_outcome e = Write_ok"
    and "run_feedback_page j e inp s = (res, s')"
  shows "\<exists>r. res = Inr (Some r) \<and> feedbacks s' = r # feedbacks s
           \<and> id' r = int (length (feedbacks s)) + 1
           \<and> load_feedbacks j (feedback_file s') = Inr (feedbacks s')"
proof -
  from assms(2) have "startup j s = Inr s"
    by (rule startup_in_step)
  with assms(6) have run: "show_feedback_form j e inp s = (res, s')"
    by (simp add: run_feedback_page_def)
  from show_feedback_form_accepts [OF assms(3,4), of j e s] obtain r where
    r: "feedbacks (snd (show_feedback_form j e inp s)) = r # feedbacks s"
       "id' r = int (length (feedbacks s)) + 1"
       "fst (show_feedback_form j e inp s) = Inr (Some r)"
       "feedback_file (snd (show_feedback_form j e inp s)) = Some (dump j (r # feedbacks s))"
    using assms(5) by auto
  from r run have "res = Inr (Some r)" and "feedbacks s' = r # feedbacks s"
    and "feedback_file s' = Some (dump j (feedbacks s'))"
    by simp_all
  with r(2) assms(1) show ?thesis
    by (simp add: load_after_dump)
qed

text \<open>
  Claim C3. For every accepted submission the entry put in the store has the
  normalizer's output as its improved text, and its solution is what the ordered keyword
  table gives on that improved text, lower-cased, with the company context: the text
  "Company context: " followed by the profile's description, and the empty string
  without a profile. The code hands the raw text to the keyword tests: the wrapping
  sentence holds no keyword and no keyword can straddle its ends, so the answer is the
  same.
\<close>

theorem solution_classifies_improved:
  assumes "submitted inp" and "strip (feedback_text inp) \<noteq> []"
  shows "\<exists>r. feedbacks (snd (show_feedback_form j e inp s)) = r # feedbacks s
           \<and> improved r =
               (if length (feedback_text inp) < 20
                then ''Customer feedback indicates: '' @ feedback_text inp
                       @ ''. Additional context would be helpful.''
                else feedback_text inp)
           \<and> solution r =
               first_match
                 (keyword_groups
                    (case active_company_info s of
                       None \<Rightarrow> [] | Some c \<Rightarrow> ''Company context: '' @ description c))
                 (generic_follow_up
                    (case active_company_info s of
                       None \<Rightarrow> [] | Some c \<Rightarrow> ''Company context: '' @ description c))
                 (lower (improved r))
           \<and> (write_outcome e = Write_ok \<longrightarrow>
                fst (show_feedback_form j e inp s) = Inr (Some r))"
proof -
  let ?ctx = "case active_company_info s of
                None \<Rightarrow> [] | Some c \<Rightarrow> ''Company context: '' @ description c"
  from show_feedback_form_accepts [OF assms, of j e s] obtain r where
    r: "feedbacks (snd (show_feedback_form j e inp s)) = r # feedbacks s"
       "improved r = normalizer (feedback_text inp)"
       "solution r = classifier (feedback_text inp) (company_context_of (active_company_info s))"
       "case write_outcome e of
          Write_ok \<Rightarrow> fst (show_feedback_form j e inp s) = Inr (Some r)
                      \<and> feedback_file (snd (show_feedback_form j e inp s)) = Some (dump j (r # feedbacks s))
        | Write_fails f \<Rightarrow> fst (show_feedback_form j e inp s) = Inl OSError
                      \<and> feedback_file (snd (show_feedback_form j e inp s)) = f"
    by blast
  from r(2) have i: "improved r =
               (if length (feedback_text inp) < 20
                then ''Customer feedback indicates: '' @ feedback_text inp
                       @ ''. Additional context would be helpful.''
                else feedback_text inp)"
    by (simp only: normalizer_eq)
  have ctx: "company_context_of (active_company_info s) = ?ctx"
    by (simp only: company_context_of_def)
  have "solution r = classifier (improved r) ?ctx"
    by (simp only: r(2) r(3) classifier_normalizer ctx)
  then have c: "solution r = first_match (keyword_groups ?ctx) (generic_follow_up ?ctx)
                               (lower (improved r))"
    by (simp only: classifier_first_match)
  from r(4) have d: "write_outcome e = Write_ok \<longrightarrow>
      fst (show_feedback_form j e inp s) = Inr (Some r)"
    by (cases "write_outcome e") simp_all
  show ?thesis
    by (rule exI [of _ r]) (intro conjI r(1) i c d)
qed

theorem solution_classifies_improved_witness:
  "submitted (filled ''Too slow'' 2)
   \<and> strip (feedback_text (filled ''Too slow'' 2)) \<noteq> []
   \<and> map improved (feedbacks (snd (show_feedback_form value_json
         (writable ''2024-05-01 12:00:00'') (filled ''Too slow'' 2)
         (fresh\<lparr>active_company_info := Some unrated_cafe\<rparr>))))
       = [''Customer feedback indicates: Too slow. Additional context would be helpful.'']
   \<and> map solution (feedbacks (snd (show_feedback_form value_json
         (writable ''2024-05-01 12:00:00'') (filled ''Too slow'' 2)
         (fresh\<lparr>active_company_info := Some unrated_cafe\<rparr>))))
       = [''Recommendation: Increase staff during peak hours. Consider implementing a queue management system. Company context: Family restaurant by the sea'']
   \<and> submitted (filled ''Great service, loved it!'' 5)
   \<and> strip (feedback_text (filled ''Great service, loved it!'' 5)) \<noteq> []
   \<and> map improved (feedbacks (snd (show_feedback_form value_json
         (writable ''2024-05-01 12:00:00'') (filled ''Great service, loved it!'' 5) fresh)))
       = [''Great service, loved it!'']
   \<and> map solution (feedbacks (snd (show_feedback_form value_json
         (writable ''2024-05-01 12:00:00'') (filled ''Great service, loved it!'' 5) fresh)))
       = [''Positive feedback received! Continue maintaining these high standards and consider what's working well.'']"
proof -
  have a: "submitted (filled ''Too slow'' 2)"
    and a': "submitted (filled ''Great service, loved it!'' 5)"
    by (simp_all add: filled_def)
  have b: "strip (feedback_text (filled ''Too slow'' 2)) \<noteq> []"
    and b': "strip (feedback_text (filled ''Great service, loved it!'' 5)) \<noteq> []"
    by (simp_all add: filled_def strip_def isspace_def)
  have v: "first_match (keyword_groups ''Company context: Family restaurant by the sea'')
       (generic_follow_up ''Company context: Family restaurant by the sea'')
       (lower ''Customer feedback indicates: Too slow. Additional context would be helpful.'')
     = ''Recommendation: Increase staff during peak hours. Consider implementing a queue management system. Company context: Family restaurant by the sea''"
    by code_simp
  have v': "first_match (keyword_groups []) (generic_follow_up [])
       (lower ''Great service, loved it!'')
     = ''Positive feedback received! Continue maintaining these high standards and consider what's working well.''"
    by code_simp
  have p: "(case active_company_info (fresh\<lparr>active_company_info := Some unrated_cafe\<rparr>) of
              None \<Rightarrow> [] | Some c \<Rightarrow> ''Company context: '' @ description c)
           = ''Company context: Family restaurant by the sea''"
    by (simp add: unrated_cafe_def)
  have p': "(case active_company_info fresh of
              None \<Rightarrow> [] | Some c \<Rightarrow> ''Company context: '' @ description c) = []"
    by (simp add: fresh_def)
  have z: "feedbacks (fresh\<lparr>active_company_info := Some unrated_cafe\<rparr>) = []"
    and z': "feedbacks fresh = []"
    by (simp_all add: fresh_def)
  have t: "feedback_text (filled ''Too slow'' 2) = ''Too slow''"
    and t': "feedback_text (filled ''Great service, loved it!'' 5) = ''Great service, loved it!''"
    by (simp_all add: filled_def)
  from solution_classifies_improved [OF a b, of value_json "writable ''2024-05-01 12:00:00''"
      "fresh\<lparr>active_company_info := Some unrated_cafe\<rparr>"]
  obtain r where
    r: "feedbacks (snd (show_feedback_form value_json (writable ''2024-05-01 12:00:00'')
          (filled ''Too slow'' 2) (fresh\<lparr>active_company_info := Some unrated_cafe\<rparr>)))
        = [r]"
       "improved r
        = ''Customer feedback indicates: Too slow. Additional context would be helpful.''"
       "solution r =
          first_match (keyword_groups ''Company context: Family restaurant by the sea'')
            (generic_follow_up ''Company context: Family restaurant by the sea'')
            (lower (improved r))"
    unfolding p z t by auto
  from r(2,3) have s: "solution r = ''Recommendation: Increase staff during peak hours. Consider implementing a queue management system. Company context: Family restaurant by the sea''"
    by (simp only: v)
  from solution_classifies_improved [OF a' b', of value_json "writable ''2024-05-01 12:00:00''"
      fresh]
  obtain r' where
    r': "feedbacks (snd (show_feedback_form value_json (writable ''2024-05-01 12:00:00'')
          (filled ''Great service, loved it!'' 5) fresh)) = [r']"
       "improved r' = ''Great service, loved it!''"
       "solution r' = first_match (keyword_groups []) (generic_follow_up []) (lower (improved r'))"
    unfolding p' z' t' by auto
  from r'(2,3) have s': "solution r' = ''Positive feedback received! Continue maintaining these high standards and consider what's working well.''"
    by (simp only: v')
  have m: "map improved (feedbacks (snd (show_feedback_form value_json
         (writable ''2024-05-01 12:00:00'') (filled ''Too slow'' 2)
         (fresh\<lparr>active_company_info := Some unrated_cafe\<rparr>))))
       = [''Customer feedback indicates: Too slow. Additional context would be helpful.'']"
    by (simp only: r(1) r(2) list.map)
  have n: "map solution (feedbacks (snd (show_feedback_form value_json
         (writable ''2024-05-01 12:00:00'') (filled ''Too slow'' 2)
         (fresh\<lparr>active_company_info := Some unrated_cafe\<rparr>))))
       = [''Recommendation: Increase staff during peak hours. Consider implementing a queue management system. Company context: Family restaurant by the sea'']"
    by (simp only: r(1) s list.map)
  have m': "map improved (feedbacks (snd (show_feedback_form value_json
         (writable ''2024-05-01 12:00:00'') (filled ''Great service, loved it!'' 5) fresh)))
       = [''Great service, loved it!'']"
    by (simp only: r'(1) r'(2) list.map)
  have n': "map solution (feedbacks (snd (show_feedback_form value_json
         (writable ''2024-05-01 12:00:00'') (filled ''Great service, loved it!'' 5) fresh)))
       = [''Positive feedback received! Continue maintaining these high standards and consider what's working well.'']"
    by (simp only: r'(1) s' list.map)
  show ?thesis
    by (intro conjI a b m n a' b' m' n')
qed

lemma unsaved_feedbacks:
  "feedbacks unsaved =
     [\<lparr>id' = 1, company = ''Our Company'', category = ''General'', rating = 2,
       original = ''Too slow'', improved = normalizer ''Too slow'',
       solution = classifier ''Too slow'' [], timestamp = ''2024-05-01 12:00:00''\<rparr>]"
  by (simp add: unsaved_def show_feedback_form_def Let_def save_feedbacks_def
      process_feedback_with_ai_pair company_context_of_def filled_def unwritable_def fresh_def
      strip_def isspace_def)

text \<open>
  Claim C2, as the code has it. The entry is inserted in the cached list before the file is
  written and nothing takes it out when the write fails. So a failed save is reported (the
  run ends in the I/O error, without the thanks), the file is what the failed write left,
  and the cached list holds the new entry in front, one longer than before; a retry in
  the same session gets the next id, two above the old size.
\<close>

theorem failed_save_keeps_entry:
  assumes "submitted inp" and "strip (feedback_text inp) \<noteq> []"
    and "write_outcome e = Write_fails f"
    and "submitted inp2" and "strip (feedback_text inp2) \<noteq> []"
  shows "fst (show_feedback_form j e inp s) = Inl OSError
       \<and> feedback_file (snd (show_feedback_form j e inp s)) = f
       \<and> (\<exists>r r2. feedbacks (snd (show_feedback_form j e inp s)) = r # feedbacks s
             \<and> id' r = int (length (feedbacks s)) + 1
             \<and> original r = feedback_text inp
             \<and> feedbacks (snd (run_feedback_page j e2 inp2 (snd (show_feedback_form j e inp s))))
                 = r2 # r # feedbacks s
             \<and> id' r2 = int (length (feedbacks s)) + 2)"
proof -
  let ?s1 = "snd (show_feedback_form j e inp s)"
  from show_feedback_form_accepts [OF assms(1,2), of j e s] obtain r where
    r: "feedbacks ?s1 = r # feedbacks s"
       "id' r = int (length (feedbacks s)) + 1"
       "original r = feedback_text inp"
    and w: "case write_outcome e of
          Write_ok \<Rightarrow> fst (show_feedback_form j e inp s) = Inr (Some r)
                      \<and> feedback_file ?s1 = Some (dump j (r # feedbacks s))
        | Write_fails f \<Rightarrow> fst (show_feedback_form j e inp s) = Inl OSError
                      \<and> feedback_file ?s1 = f"
    by blast
  from w assms(3) have a: "fst (show_feedback_form j e inp s) = Inl OSError"
    and b: "feedback_file ?s1 = f"
    by simp_all
  from r(1) have "feedbacks ?s1 \<noteq> []"
    by simp
  then have "startup j ?s1 = Inr ?s1"
    by (rule startup_cached)
  then have again: "run_feedback_page j e2 inp2 ?s1 = show_feedback_form j e2 inp2 ?s1"
    by (simp add: run_feedback_page_def)
  from show_feedback_form_accepts [OF assms(4,5), of j e2 ?s1] obtain r2 where
    r2: "feedbacks (snd (show_feedback_form j e2 inp2 ?s1)) = r2 # feedbacks ?s1"
        "id' r2 = int (length (feedbacks ?s1)) + 1"
    by blast
  from r2(1) have c: "feedbacks (snd (run_feedback_page j e2 inp2 ?s1)) = r2 # r # feedbacks s"
    by (simp only: again r(1))
  from r2(2) have d: "id' r2 = int (length (feedbacks s)) + 2"
    by (simp add: r(1))
  have "\<exists>r r2. feedbacks ?s1 = r # feedbacks s
             \<and> id' r = int (length (feedbacks s)) + 1
             \<and> original r = feedback_text inp
             \<and> feedbacks (snd (run_feedback_page j e2 inp2 ?s1)) = r2 # r # feedbacks s
             \<and> id' r2 = int (length (feedbacks s)) + 2"
    by (rule exI [of _ r], rule exI [of _ r2]) (intro conjI r c d)
  with a b show ?thesis
    by (intro conjI)
qed

theorem failed_save_keeps_entry_witness:
  "submitted (filled ''Too slow'' 2) \<and> strip (feedback_text (filled ''Too slow'' 2)) \<noteq> []
   \<and> write_outcome (unwritable ''2024-05-01 12:00:00'') = Write_fails None
   \<and> fst (show_feedback_form value_json (unwritable ''2024-05-01 12:00:00'')
            (filled ''Too slow'' 2) fresh) = Inl OSError
   \<and> feedback_file (snd (show_feedback_form value_json (unwritable ''2024-05-01 12:00:00'')
            (filled ''Too slow'' 2) fresh)) = None
   \<and> (\<exists>r r2. feedbacks (snd (show_feedback_form value_json (unwritable ''2024-05-01 12:00:00'')
                   (filled ''Too slow'' 2) fresh)) = r # feedbacks fresh
         \<and> id' r = int (length (feedbacks fresh)) + 1
         \<and> original r = feedback_text (filled ''Too slow'' 2)
         \<and> feedbacks (snd (run_feedback_page value_json (writable ''2024-05-01 12:01:00'')
               (filled ''Too slow'' 2)
               (snd (show_feedback_form value_json (unwritable ''2024-05-01 12:00:00'')
                   (filled ''Too slow'' 2) fresh)))) = r2 # r # feedbacks fresh
         \<and> id' r2 = int (length (feedbacks fresh)) + 2)"
proof -
  have a: "submitted (filled ''Too slow'' 2)"
    by (simp add: filled_def)
  have b: "strip (feedback_text (filled ''Too slow'' 2)) \<noteq> []"
    by (simp add: filled_def strip_def isspace_def)
  have c: "write_outcome (unwritable ''2024-05-01 12:00:00'') = Write_fails None"
    by (simp add: unwritable_def)
  note t = failed_save_keeps_entry [OF a b c a b, of value_json fresh
      "writable ''2024-05-01 12:01:00''"]
  show ?thesis
    by (intro conjI a b c t [THEN conjunct1] t [THEN conjunct2, THEN conjunct1]
        t [THEN conjunct2, THEN conjunct2])
qed

text \<open>
  The claim as it is written wants the cached list unchanged after a failed save and the
  retry to get the same id. In a fresh session whose first save fails, the cached list
  holds the entry with id 1 all the same, and the retry gets id 2.
\<close>

theorem failed_save_counterexample:
  "fst (show_feedback_form value_json (unwritable ''2024-05-01 12:00:00'')
          (filled ''Too slow'' 2) fresh) = Inl OSError
   \<and> feedbacks unsaved \<noteq> feedbacks fresh
   \<and> map id' (feedbacks unsaved) = [1]
   \<and> map id' (feedbacks (snd (run_feedback_page value_json (writable ''2024-05-01 12:01:00'')
          (filled ''Too slow'' 2) unsaved))) = [2, 1]"
proof -
  have a: "fst (show_feedback_form value_json (unwritable ''2024-05-01 12:00:00'')
          (filled ''Too slow'' 2) fresh) = Inl OSError"
    by (simp add: show_feedback_form_def Let_def save_feedbacks_def
      process_feedback_with_ai_pair filled_def unwritable_def fresh_def strip_def isspace_def)
  have b: "feedbacks unsaved \<noteq> feedbacks fresh"
    by (simp add: unsaved_feedbacks fresh_def)
  have c: "map id' (feedbacks unsaved) = [1]"
    by (simp add: unsaved_feedbacks)
  have "feedbacks unsaved \<noteq> []"
    by (simp add: unsaved_feedbacks)
  then have "startup value_json unsaved = Inr unsaved"
    by (rule startup_cached)
  then have "run_feedback_page value_json (writable ''2024-05-01 12:01:00'')
          (filled ''Too slow'' 2) unsaved
        = show_feedback_form value_json (writable ''2024-05-01 12:01:00'')
          (filled ''Too slow'' 2) unsaved"
    by (simp add: run_feedback_page_def)
  then have d: "map id' (feedbacks (snd (run_feedback_page value_json
          (writable ''2024-05-01 12:01:00'') (filled ''Too slow'' 2) unsaved))) = [2, 1]"
    by (simp add: show_feedback_form_def Let_def save_feedbacks_def
      process_feedback_with_ai_pair filled_def writable_def strip_def isspace_def
      unsaved_feedbacks)
  show ?thesis
    by (intro conjI a b c d)
qed

text \<open>
  Claim C7. With a profile that switches the rating off, the new entry has rating 0
  whatever the slider says. With the rating on (a profile that enables it, or no
  profile) the entry has the slider's value, which the widget keeps between 1 and 5. So
  a submission keeps every rating of the cached list between 0 and 5.
\<close>

theorem rating_of_new_entry:
  assumes "submitted inp" and "strip (feedback_text inp) \<noteq> []"
  shows "\<exists>r. feedbacks (snd (show_feedback_form j e inp s)) = r # feedbacks s
           \<and> (\<not> (case active_company_info s of None \<Rightarrow> True | Some c \<Rightarrow> enable_rating c)
                \<longrightarrow> rating r = 0)
           \<and> ((case active_company_info s of None \<Rightarrow> True | Some c \<Rightarrow> enable_rating c)
                \<and> 1 \<le> slider_rating inp \<and> slider_rating inp \<le> 5
                \<longrightarrow> rating r = slider_rating inp \<and> 1 \<le> rating r \<and> rating r \<le> 5)
           \<and> (1 \<le> slider_rating inp \<and> slider_rating inp \<le> 5
                \<and> list_all (\<lambda>f. 0 \<le> rating f \<and> rating f \<le> 5) (feedbacks s)
                \<longrightarrow> list_all (\<lambda>f. 0 \<le> rating f \<and> rating f \<le> 5)
                      (feedbacks (snd (show_feedback_form j e inp s))))"
proof -
  let ?on = "case active_company_info s of None \<Rightarrow> True | Some c \<Rightarrow> enable_rating c"
  from show_feedback_form_accepts [OF assms, of j e s] obtain r where
    r: "feedbacks (snd (show_feedback_form j e inp s)) = r # feedbacks s"
       "rating r = (if ?on then slider_rating inp else 0)"
    by blast
  from r(2) have off: "\<not> ?on \<longrightarrow> rating r = 0"
    by simp
  from r(2) have on: "?on \<and> 1 \<le> slider_rating inp \<and> slider_rating inp \<le> 5
      \<longrightarrow> rating r = slider_rating inp \<and> 1 \<le> rating r \<and> rating r \<le> 5"
    by simp
  from r(2) have "1 \<le> slider_rating inp \<and> slider_rating inp \<le> 5
      \<longrightarrow> 0 \<le> rating r \<and> rating r \<le> 5"
    by simp
  then have inv: "1 \<le> slider_rating inp \<and> slider_rating inp \<le> 5
      \<and> list_all (\<lambda>f. 0 \<le> rating f \<and> rating f \<le> 5) (feedbacks s)
      \<longrightarrow> list_all (\<lambda>f. 0 \<le> rating f \<and> rating f \<le> 5)
            (feedbacks (snd (show_feedback_form j e inp s)))"
    by (simp add: r(1))
  show ?thesis
    by (rule exI [of _ r]) (intro conjI r(1) off on inv)
qed

theorem rating_of_new_entry_witness:
  "submitted (filled ''Too slow'' 5) \<and> strip (feedback_text (filled ''Too slow'' 5)) \<noteq> []
   \<and> slider_rating (filled ''Too slow'' 5) = 5
   \<and> active_company_info (fresh\<lparr>active_company_info := Some unrated_cafe\<rparr>) = Some unrated_cafe
   \<and> enable_rating unrated_cafe = False
   \<and> active_company_info fresh = None
   \<and> map rating (feedbacks (snd (show_feedback_form value_json (writable ''2024-05-01 12:00:00'')
         (filled ''Too slow'' 5) (fresh\<lparr>active_company_info := Some unrated_cafe\<rparr>)))) = [0]
   \<and> map rating (feedbacks (snd (show_feedback_form value_json (writable ''2024-05-01 12:00:00'')
         (filled ''Too slow'' 5) fresh))) = [5]"
proof -
  have a: "submitted (filled ''Too slow'' 5)"
    by (simp add: filled_def)
  have b: "strip (feedback_text (filled ''Too slow'' 5)) \<noteq> []"
    by (simp add: filled_def strip_def isspace_def)
  have c: "slider_rating (filled ''Too slow'' 5) = 5"
    by (simp add: filled_def)
  have d: "active_company_info (fresh\<lparr>active_company_info := Some unrated_cafe\<rparr>) = Some unrated_cafe"
    by simp
  have e: "enable_rating unrated_cafe = False"
    by (simp add: unrated_cafe_def)
  have f: "active_company_info fresh = None"
    by (simp add: fresh_def)
  have g: "feedbacks fresh = []"
    by (simp add: fresh_def)
  from rating_of_new_entry [OF a b, of value_json "writable ''2024-05-01 12:00:00''"
      "fresh\<lparr>active_company_info := Some unrated_cafe\<rparr>"]
  obtain r where
    "feedbacks (snd (show_feedback_form value_json (writable ''2024-05-01 12:00:00'')
         (filled ''Too slow'' 5) (fresh\<lparr>active_company_info := Some unrated_cafe\<rparr>)))
       = r # feedbacks (fresh\<lparr>active_company_info := Some unrated_cafe\<rparr>)"
    and "\<not> (case active_company_info (fresh\<lparr>active_company_info := Some unrated_cafe\<rparr>) of
             None \<Rightarrow> True | Some c \<Rightarrow> enable_rating c) \<longrightarrow> rating r = 0"
    by blast
  then have h: "map rating (feedbacks (snd (show_feedback_form value_json
         (writable ''2024-05-01 12:00:00'') (filled ''Too slow'' 5)
         (fresh\<lparr>active_company_info := Some unrated_cafe\<rparr>)))) = [0]"
    by (simp add: e g)
  from rating_of_new_entry [OF a b, of value_json "writable ''2024-05-01 12:00:00''" fresh]
  obtain r' where
    "feedbacks (snd (show_feedback_form value_json (writable ''2024-05-01 12:00:00'')
         (filled ''Too slow'' 5) fresh)) = r' # feedbacks fresh"
    and "(case active_company_info fresh of None \<Rightarrow> True | Some c \<Rightarrow> enable_rating c)
          \<and> 1 \<le> slider_rating (filled ''Too slow'' 5) \<and> slider_rating (filled ''Too slow'' 5) \<le> 5
          \<longrightarrow> rating r' = slider_rating (filled ''Too slow'' 5) \<and> 1 \<le> rating r' \<and> rating r' \<le> 5"
    by blast
  then have i: "map rating (feedbacks (snd (show_feedback_form value_json
         (writable ''2024-05-01 12:00:00'') (filled ''Too slow'' 5) fresh))) = [5]"
    by (simp add: c f g)
  show ?thesis
    by (intro conjI a b c d e f h i)
qed

section \<open>Ids and order of the store\<close>

text \<open>
  Claim C6. Three accepted submissions, each saved, in a session that starts with no
  cached entry and a file that is missing or holds the empty collection: the entries get
  the ids 1, 2, 3, each the size of the cached list plus one, the cached list is newest
  first, and loading the file gives the same list, ids 3, 2, 1.
\<close>

theorem three_submissions_ids:
  assumes "json_roundtrip j"
    and "feedbacks s0 = []" and "load_feedbacks j (feedback_file s0) = Inr []"
    and "submitted i1" and "strip (feedback_text i1) \<noteq> []" and "write_outcome e1 = Write_ok"
    and "submitted i2" and "strip (feedback_text i2) \<noteq> []" and "write_outcome e2 = Write_ok"
    and "submitted i3" and "strip (feedback_text i3) \<noteq> []" and "write_outcome e3 = Write_ok"
    and "run_feedback_page j e1 i1 s0 = (res1, s1)"
    and "run_feedback_page j e2 i2 s1 = (res2, s2)"
    and "run_feedback_page j e3 i3 s2 = (res3, s3)"
  shows "map id' (feedbacks s3) = [3, 2, 1]
       \<and> load_feedbacks j (feedback_file s3) = Inr (feedbacks s3)
       \<and> (\<exists>r1 r2 r3. res1 = Inr (Some r1) \<and> res2 = Inr (Some r2) \<and> res3 = Inr (Some r3)
             \<and> id' r1 = int (length (feedbacks s0)) + 1
             \<and> id' r2 = int (length (feedbacks s1)) + 1
             \<and> id' r3 = int (length (feedbacks s2)) + 1
             \<and> id' r1 = 1 \<and> id' r2 = 2 \<and> id' r3 = 3
             \<and> feedbacks s3 = [r3, r2, r1])"
proof -
  from assms(2,3) have sync0: "load_feedbacks j (feedback_file s0) = Inr (feedbacks s0)"
    by simp
  from run_feedback_page_saved [OF assms(1) sync0 assms(4,5,6,13)] obtain r1 where
    r1: "res1 = Inr (Some r1)" "feedbacks s1 = r1 # feedbacks s0"
        "id' r1 = int (length (feedbacks s0)) + 1"
        "load_feedbacks j (feedback_file s1) = Inr (feedbacks s1)"
    by blast
  from run_feedback_page_saved [OF assms(1) r1(4) assms(7,8,9,14)] obtain r2 where
    r2: "res2 = Inr (Some r2)" "feedbacks s2 = r2 # feedbacks s1"
        "id' r2 = int (length (feedbacks s1)) + 1"
        "load_feedbacks j (feedback_file s2) = Inr (feedbacks s2)"
    by blast
  from run_feedback_page_saved [OF assms(1) r2(4) assms(10,11,12,15)] obtain r3 where
    r3: "res3 = Inr (Some r3)" "feedbacks s3 = r3 # feedbacks s2"
        "id' r3 = int (length (feedbacks s2)) + 1"
        "load_feedbacks j (feedback_file s3) = Inr (feedbacks s3)"
    by blast
  have l1: "feedbacks s1 = [r1]" using r1(2) assms(2) by simp
  have l2: "feedbacks s2 = [r2, r1]" using r2(2) l1 by simp
  have l3: "feedbacks s3 = [r3, r2, r1]" using r3(2) l2 by simp
  have n1: "id' r1 = 1" using r1(3) assms(2) by simp
  have n2: "id' r2 = 2" using r2(3) l1 by simp
  have n3: "id' r3 = 3" using r3(3) l2 by simp
  have ids: "map id' (feedbacks s3) = [3, 2, 1]"
    using l3 n1 n2 n3 by simp
  have "\<exists>r1 r2 r3. res1 = Inr (Some r1) \<and> res2 = Inr (Some r2) \<and> res3 = Inr (Some r3)
             \<and> id' r1 = int (length (feedbacks s0)) + 1
             \<and> id' r2 = int (length (feedbacks s1)) + 1
             \<and> id' r3 = int (length (feedbacks s2)) + 1
             \<and> id' r1 = 1 \<and> id' r2 = 2 \<and> id' r3 = 3
             \<and> feedbacks s3 = [r3, r2, r1]"
    by (rule exI [of _ r1], rule exI [of _ r2], rule exI [of _ r3])
      (intro conjI r1(1) r2(1) r3(1) r1(3) r2(3) r3(3) n1 n2 n3 l3)
  with ids r3(4) show ?thesis
    by (intro conjI)
qed

theorem three_submissions_ids_witness:
  "json_roundtrip value_json
   \<and> feedbacks fresh = [] \<and> load_feedbacks value_json (feedback_file fresh) = Inr []
   \<and> submitted (filled ''Too slow'' 2) \<and> strip (feedback_text (filled ''Too slow'' 2)) \<noteq> []
   \<and> submitted (filled ''Dirty floor, rude staff'' 1)
   \<and> strip (feedback_text (filled ''Dirty floor, rude staff'' 1)) \<noteq> []
   \<and> submitted (filled ''Great service, loved it!'' 5)
   \<and> strip (feedback_text (filled ''Great service, loved it!'' 5)) \<noteq> []
   \<and> write_outcome (writable ''2024-05-01 12:00:00'') = Write_ok
   \<and> write_outcome (writable ''2024-05-01 12:05:00'') = Write_ok
   \<and> write_outcome (writable ''2024-05-01 12:10:00'') = Write_ok
   \<and> map id' (feedbacks session3) = [3, 2, 1]
   \<and> load_feedbacks value_json (feedback_file session3) = Inr (feedbacks session3)
   \<and> map original (feedbacks session3)
       = [''Great service, loved it!'', ''Dirty floor, rude staff'', ''Too slow'']"
proof -
  have j: "json_roundtrip value_json"
    by (rule json_roundtrip_value_json)
  have z: "feedbacks fresh = []"
    and z': "load_feedbacks value_json (feedback_file fresh) = Inr []"
    by (simp_all add: fresh_def load_feedbacks_def)
  have a1: "submitted (filled ''Too slow'' 2)"
    and a2: "submitted (filled ''Dirty floor, rude staff'' 1)"
    and a3: "submitted (filled ''Great service, loved it!'' 5)"
    by (simp_all add: filled_def)
  have b1: "strip (feedback_text (filled ''Too slow'' 2)) \<noteq> []"
    and b2: "strip (feedback_text (filled ''Dirty floor, rude staff'' 1)) \<noteq> []"
    and b3: "strip (feedback_text (filled ''Great service, loved it!'' 5)) \<noteq> []"
    by (simp_all add: filled_def strip_def isspace_def)
  have w1: "write_outcome (writable ''2024-05-01 12:00:00'') = Write_ok"
    and w2: "write_outcome (writable ''2024-05-01 12:05:00'') = Write_ok"
    and w3: "write_outcome (writable ''2024-05-01 12:10:00'') = Write_ok"
    by (simp_all add: writable_def)
  have p1: "run_feedback_page value_json (writable ''2024-05-01 12:00:00'')
              (filled ''Too slow'' 2) fresh
            = (fst (run_feedback_page value_json (writable ''2024-05-01 12:00:00'')
                 (filled ''Too slow'' 2) fresh), session1)"
    by (simp add: session1_def)
  have p2: "run_feedback_page value_json (writable ''2024-05-01 12:05:00'')
              (filled ''Dirty floor, rude staff'' 1) session1
            = (fst (run_feedback_page value_json (writable ''2024-05-01 12:05:00'')
                 (filled ''Dirty floor, rude staff'' 1) session1), session2)"
    by (simp add: session2_def)
  have p3: "run_feedback_page value_json (writable ''2024-05-01 12:10:00'')
              (filled ''Great service, loved it!'' 5) session2
            = (fst (run_feedback_page value_json (writable ''2024-05-01 12:10:00'')
                 (filled ''Great service, loved it!'' 5) session2), session3)"
    by (simp add: session3_def)
  note t = three_submissions_ids [OF j z z' a1 b1 w1 a2 b2 w2 a3 b3 w3 p1 p2 p3]
  have s1: "feedbacks session1 =
     [\<lparr>id' = 1, company = ''Our Company'', category = ''General'', rating = 2,
       original = ''Too slow'', improved = normalizer ''Too slow'',
       solution = classifier ''Too slow'' [], timestamp = ''2024-05-01 12:00:00''\<rparr>]"
    by (simp add: session1_def run_feedback_page_def startup_def load_feedbacks_def
      show_feedback_form_def Let_def save_feedbacks_def process_feedback_with_ai_pair
      company_context_of_def filled_def writable_def fresh_def strip_def isspace_def)
  have "feedbacks session1 \<noteq> []"
    by (simp add: s1)
  then have "startup value_json session1 = Inr session1"
    by (rule startup_cached)
  then have s2: "map original (feedbacks session2) = [''Dirty floor, rude staff'', ''Too slow'']"
    by (simp add: session2_def run_feedback_page_def
      show_feedback_form_def Let_def save_feedbacks_def process_feedback_with_ai_pair
      filled_def writable_def strip_def isspace_def s1)
  then have "feedbacks session2 \<noteq> []"
    by auto
  then have "startup value_json session2 = Inr session2"
    by (rule startup_cached)
  then have s3: "map original (feedbacks session3)
       = [''Great service, loved it!'', ''Dirty floor, rude staff'', ''Too slow'']"
    by (simp add: session3_def run_feedback_page_def
      show_feedback_form_def Let_def save_feedbacks_def process_feedback_with_ai_pair
      filled_def writable_def strip_def isspace_def s2)
  show ?thesis
    by (intro conjI j z z' a1 b1 a2 b2 a3 b3 w1 w2 w3 t [THEN conjunct1]
        t [THEN conjunct2, THEN conjunct1] s3)
qed

section \<open>Saving what was loaded\<close>

text \<open>
  Claim C8. With a \<open>json\<close> library that loads back what it dumped, and a file that is
  missing or loads as a collection: saving the loaded collection succeeds, the new
  document loads as the same records in the same order, and doing it again writes the
  same document.
\<close>

theorem save_load_idempotent:
  assumes "json_roundtrip j" and "load_feedbacks j file = Inr fs"
  shows "fst (save_load j Write_ok file) = Inr ()
       \<and> snd (save_load j Write_ok file) = Some (dump j fs)
       \<and> load_feedbacks j (snd (save_load j Write_ok file)) = Inr fs
       \<and> save_load j Write_ok (snd (save_load j Write_ok file)) = save_load j Write_ok file"
proof -
  from assms(2) have once: "save_load j Write_ok file = (Inr (), Some (dump j fs))"
    by (simp add: save_load_def save_feedbacks_def)
  from assms(1) have reload: "load_feedbacks j (Some (dump j fs)) = Inr fs"
    by (rule load_after_dump)
  then have twice: "save_load j Write_ok (Some (dump j fs)) = (Inr (), Some (dump j fs))"
    by (simp add: save_load_def save_feedbacks_def)
  show ?thesis
    by (simp add: once reload twice)
qed

theorem save_load_idempotent_witness:
  "json_roundtrip value_json
   \<and> load_feedbacks value_json (Some [entry 4, entry 0]) = Inr [entry 4, entry 0]
   \<and> fst (save_load value_json Write_ok (Some [entry 4, entry 0])) = Inr ()
   \<and> load_feedbacks value_json (snd (save_load value_json Write_ok (Some [entry 4, entry 0])))
       = Inr [entry 4, entry 0]
   \<and> save_load value_json Write_ok (snd (save_load value_json Write_ok (Some [entry 4, entry 0])))
       = save_load value_json Write_ok (Some [entry 4, entry 0])
   \<and> load_feedbacks value_json None = Inr []
   \<and> load_feedbacks value_json (snd (save_load value_json Write_ok None)) = Inr []"
proof -
  have j: "json_roundtrip value_json"
    by (rule json_roundtrip_value_json)
  have l: "load_feedbacks value_json (Some [entry 4, entry 0]) = Inr [entry 4, entry 0]"
    by (simp add: load_feedbacks_def value_json_def)
  have n: "load_feedbacks value_json None = Inr []"
    by (simp add: load_feedbacks_def)
  note t = save_load_idempotent [OF j l]
  note u = save_load_idempotent [OF j n]
  show ?thesis
    by (intro conjI j l n t [THEN conjunct1]
        t [THEN conjunct2, THEN conjunct2, THEN conjunct1]
        t [THEN conjunct2, THEN conjunct2, THEN conjunct2]
        u [THEN conjunct2, THEN conjunct2, THEN conjunct1])
qed

end
